theory Spec2Isabelle
  imports Complex_Main "HOL-Library.Sublist" "HOL-Library.Log_Nat"
begin

section \<open>Python faults raised by TTS/utils/training.py\<close>

text \<open>
  None of the helpers of \<^verbatim>\<open>training.py\<close> raises on purpose; the faults below are the
  ones the interpreter or numpy raise on the way:
  \<^item> \<open>TypeError\<close>: subscripting \<^verbatim>\<open>None\<close> (\<^verbatim>\<open>new_values[1]\<close>), or the builtin
    \<^verbatim>\<open>min\<close> comparing a complex number;
  \<^item> \<open>IndexError\<close>: a list index out of range;
  \<^item> \<open>ValueError\<close>: numpy's "zero-size array to reduction operation maximum which
    has no identity";
  \<^item> \<open>UnboundLocalError\<close>: reading a local variable no statement has assigned;
  \<^item> \<open>ZeroDivisionError\<close>: \<^verbatim>\<open>0.0 ** y\<close> with a negative \<^verbatim>\<open>y\<close>;
  \<^item> \<open>OverflowError\<close>: converting an \<^verbatim>\<open>int\<close> too large for a float, or a power
    \<^verbatim>\<open>x ** y\<close> whose result is too large for one.
\<close>

datatype py_error = TypeError | IndexError | ValueError | UnboundLocalError | ZeroDivisionError
  | OverflowError

text \<open>Reading \<^verbatim>\<open>xs[i]\<close> of a Python list: a negative index counts from the end.\<close>

definition py_getitem :: "'a list \<Rightarrow> int \<Rightarrow> py_error + 'a" where
  "py_getitem xs i =
     (if 0 \<le> i \<and> i < int (length xs) then Inr (xs ! nat i)
      else if i < 0 \<and> - i \<le> int (length xs) then Inr (xs ! nat (int (length xs) + i))
      else Inl IndexError)"

section \<open>gradual_training_scheduler\<close>

text \<open>
  An entry of \<^verbatim>\<open>config.gradual_training\<close> is read at the positions 0, 1 and 2:
  the step threshold and the two values the function returns.
  \<^verbatim>\<open>torch.cuda.device_count()\<close> is the host's answer, a parameter here.
\<close>

type_synonym gradual_entry = "int \<times> int \<times> int"

text \<open>
  The loop \<^verbatim>\<open>for values in config.gradual_training\<close>, with the variable
  \<^verbatim>\<open>new_values\<close> (\<^verbatim>\<open>None\<close> at the start) as accumulator; \<open>scaled\<close> is
  \<^verbatim>\<open>global_step * num_gpus\<close>.
\<close>

fun gradual_loop :: "int \<Rightarrow> gradual_entry list \<Rightarrow> gradual_entry option \<Rightarrow> gradual_entry option" where
  "gradual_loop scaled [] new_values = new_values"
| "gradual_loop scaled (values # rest) new_values =
     gradual_loop scaled rest (if scaled \<ge> fst values then Some values else new_values)"

definition gradual_training_scheduler ::
  "nat \<Rightarrow> int \<Rightarrow> gradual_entry list \<Rightarrow> py_error + (int \<times> int)" where
  "gradual_training_scheduler device_count global_step gradual_training =
     (let num_gpus = (if device_count = 0 then 1 else device_count) in
      case gradual_loop (global_step * int num_gpus) gradual_training None of
        None \<Rightarrow> Inl TypeError
      | Some new_values \<Rightarrow> Inr (fst (snd new_values), snd (snd new_values)))"

text \<open>The entries whose threshold is at most the scaled step, in the config's order.\<close>

definition qualifying :: "nat \<Rightarrow> int \<Rightarrow> gradual_entry list \<Rightarrow> gradual_entry list" where
  "qualifying device_count global_step gradual_training =
     filter (\<lambda>values. fst values \<le> global_step * int (max device_count 1)) gradual_training"

definition example_gradual_training :: "gradual_entry list" where
  "example_gradual_training = [(0, 32, 1), (1000, 16, 2), (2000, 8, 4)]"

section \<open>check_update\<close>

text \<open>
  The norm \<^verbatim>\<open>torch.nn.utils.clip_grad_norm_\<close> returns is a floating-point number:
  a finite one, one of the two infinities, or NaN. Older torch versions return a Python
  \<^verbatim>\<open>float\<close>, newer ones a zero-dimensional tensor; the function tells them apart with
  \<^verbatim>\<open>isinstance(grad_norm, float)\<close>.
\<close>

datatype float_value = Finite real | PosInf | NegInf | NaN

datatype grad_norm_value = PyFloat float_value | Tensor float_value

definition norm_of :: "grad_norm_value \<Rightarrow> float_value" where
  "norm_of g = (case g of PyFloat x \<Rightarrow> x | Tensor x \<Rightarrow> x)"

text \<open>\<^verbatim>\<open>np.isinf\<close> and \<^verbatim>\<open>torch.isinf\<close>: true at the two infinities only.\<close>

definition np_isinf :: "float_value \<Rightarrow> bool" where
  "np_isinf x = (case x of PosInf \<Rightarrow> True | NegInf \<Rightarrow> True | _ \<Rightarrow> False)"

definition torch_isinf :: "float_value \<Rightarrow> bool" where
  "torch_isinf x = (case x of PosInf \<Rightarrow> True | NegInf \<Rightarrow> True | _ \<Rightarrow> False)"

definition isnan :: "float_value \<Rightarrow> bool" where
  "isnan x = (case x of NaN \<Rightarrow> True | _ \<Rightarrow> False)"

text \<open>Python's \<^verbatim>\<open>sub in s\<close> on strings: \<open>sub\<close> occurs in \<open>s\<close> as a contiguous run.\<close>

fun str_in :: "string \<Rightarrow> string \<Rightarrow> bool" where
  "str_in sub [] = (sub = [])"
| "str_in sub (c # cs) = (prefix sub (c # cs) \<or> str_in sub cs)"

text \<open>
  \<^verbatim>\<open>not amp_opt_params\<close>: true for \<^verbatim>\<open>None\<close> and for an empty list.
\<close>

definition py_not :: "'p list option \<Rightarrow> bool" where
  "py_not amp_opt_params = (case amp_opt_params of None \<Rightarrow> True | Some ps \<Rightarrow> ps = [])"

text \<open>
  \<open>clip_grad_norm\<close> stands for torch's primitive (its in-place rescaling of the
  gradients is torch's own effect); \<open>model\<close> is \<^verbatim>\<open>model.named_parameters()\<close>, and
  \<^verbatim>\<open>model.parameters()\<close> its second components.
\<close>

definition check_update ::
  "('p list \<Rightarrow> real \<Rightarrow> grad_norm_value) \<Rightarrow> (string \<times> 'p) list \<Rightarrow> real \<Rightarrow> bool \<Rightarrow>
     'p list option \<Rightarrow> grad_norm_value \<times> bool" where
  "check_update clip_grad_norm model grad_clip ignore_stopnet amp_opt_params =
     (let grad_norm =
        (if ignore_stopnet then
           (if py_not amp_opt_params then
              clip_grad_norm
                (map snd (filter (\<lambda>(name, param). \<not> str_in ''stopnet'' name) model)) grad_clip
            else clip_grad_norm (the amp_opt_params) grad_clip)
         else
           (if py_not amp_opt_params then clip_grad_norm (map snd model) grad_clip
            else clip_grad_norm (the amp_opt_params) grad_clip));
        skip_flag =
          (case grad_norm of
             PyFloat x \<Rightarrow> (if np_isinf x then True else False)
           | Tensor x \<Rightarrow> (if torch_isinf x then True else False))
      in (grad_norm, skip_flag))"

text \<open>A clip primitive that answers the same norm whatever it is given.\<close>

definition clip_returning :: "grad_norm_value \<Rightarrow> 'p list \<Rightarrow> real \<Rightarrow> grad_norm_value" where
  "clip_returning g ps grad_clip = g"

text \<open>
  A clip primitive over parameters named by numbers: the norm is infinite when parameter
  7 is among those it is given, and the threshold itself otherwise.
\<close>

definition example_clip :: "nat list \<Rightarrow> real \<Rightarrow> grad_norm_value" where
  "example_clip ps grad_clip = (if 7 \<in> set ps then Tensor PosInf else PyFloat (Finite grad_clip))"

section \<open>lr_decay\<close>

text \<open>
  The schedules compute with Python floats (IEEE doubles). The model keeps what decides
  whether and what they return:
  \<^item> a finite float is a real number; rounding of a product or a power inside the range
    of the doubles is not modelled, a product beyond the range is an infinity, a power
    beyond it raises \<^verbatim>\<open>OverflowError\<close>;
  \<^item> the conversion of an \<^verbatim>\<open>int\<close> to a float is modelled with its rounding (to the
    nearest double, ties to the even one) and its \<^verbatim>\<open>OverflowError\<close>, and so is the sum
    \<^verbatim>\<open>global_step + 1.\<close>, whose exact value is a whole number.
  The arguments \<^verbatim>\<open>init_lr\<close> and \<^verbatim>\<open>base_lr\<close> are finite floats.
\<close>

text \<open>
  The double nearest to a whole number: below 54 bits the number itself, else the
  nearest multiple of the unit in the last place, the even one of two equally near.
\<close>

definition round_to_double :: "int \<Rightarrow> int" where
  "round_to_double n =
     (let a = \<bar>n\<bar>; e = bitlen a - 53 in
      if e \<le> 0 then n
      else
        let ulp = 2 ^ nat e; q = a div ulp; r = a mod ulp;
            q' = (if ulp < 2 * r \<or> (2 * r = ulp \<and> odd q) then q + 1 else q)
        in sgn n * (q' * ulp))"

text \<open>
  The bound of the doubles for rounding: a number of this size or more rounds to
  \<open>2 ^ 1024\<close>, which no double holds (the largest is \<open>2 ^ 1024 - 2 ^ 971\<close>).
\<close>

definition overflow_threshold :: real where
  "overflow_threshold = 2 ^ 1024 - 2 ^ 970"

text \<open>
  \<^verbatim>\<open>float(n)\<close> of an \<^verbatim>\<open>int\<close>, also where an \<^verbatim>\<open>int\<close> meets a float in \<^verbatim>\<open>+\<close>,
  \<^verbatim>\<open>*\<close> or \<^verbatim>\<open>**\<close>; and \<^verbatim>\<open>x + 1.\<close> at a float that holds the whole number \<open>k\<close>.
\<close>

definition int_to_float :: "int \<Rightarrow> py_error + int" where
  "int_to_float n =
     (if 2 ^ 1024 - 2 ^ 970 \<le> \<bar>n\<bar> then Inl OverflowError else Inr (round_to_double n))"

definition float_add_one :: "int \<Rightarrow> int" where
  "float_add_one k = round_to_double (k + 1)"

text \<open>
  \<^verbatim>\<open>warmup_steps\<close> arrives as an \<^verbatim>\<open>int\<close> or as a float; \<^verbatim>\<open>float(warmup_steps)\<close>
  converts the first and returns the second.
\<close>

datatype py_number = IntArg int | FloatArg real

definition py_float :: "py_number \<Rightarrow> py_error + real" where
  "py_float x =
     (case x of
        FloatArg r \<Rightarrow> Inr r
      | IntArg n \<Rightarrow> (case int_to_float n of Inl e \<Rightarrow> Inl e | Inr k \<Rightarrow> Inr (real_of_int k)))"

text \<open>The float a product with the exact value \<open>r\<close> is stored as, and the float product.\<close>

definition fl_round :: "real \<Rightarrow> float_value" where
  "fl_round r =
     (if overflow_threshold \<le> r then PosInf
      else if r \<le> - overflow_threshold then NegInf
      else Finite r)"

fun fl_mult :: "float_value \<Rightarrow> float_value \<Rightarrow> float_value" where
  "fl_mult (Finite a) (Finite b) = fl_round (a * b)"
| "fl_mult NaN y = NaN"
| "fl_mult x NaN = NaN"
| "fl_mult (Finite a) PosInf = (if a = 0 then NaN else if 0 < a then PosInf else NegInf)"
| "fl_mult (Finite a) NegInf = (if a = 0 then NaN else if 0 < a then NegInf else PosInf)"
| "fl_mult PosInf (Finite b) = (if b = 0 then NaN else if 0 < b then PosInf else NegInf)"
| "fl_mult NegInf (Finite b) = (if b = 0 then NaN else if 0 < b then NegInf else PosInf)"
| "fl_mult PosInf PosInf = PosInf"
| "fl_mult PosInf NegInf = NegInf"
| "fl_mult NegInf PosInf = NegInf"
| "fl_mult NegInf NegInf = PosInf"

fun fl_less :: "float_value \<Rightarrow> float_value \<Rightarrow> bool" where
  "fl_less NaN y = False"
| "fl_less x NaN = False"
| "fl_less (Finite a) (Finite b) = (a < b)"
| "fl_less NegInf NegInf = False"
| "fl_less NegInf y = True"
| "fl_less x NegInf = False"
| "fl_less PosInf y = False"
| "fl_less x PosInf = True"


text \<open>
  A value of the arithmetic: a float, or a complex number (from a negative base with a
  fractional exponent). \<^verbatim>\<open>np.minimum\<close> hands a NaN on and promotes to complex; the
  builtin \<^verbatim>\<open>min(a, b)\<close> returns \<^verbatim>\<open>b\<close> when \<^verbatim>\<open>b < a\<close> and \<^verbatim>\<open>a\<close> otherwise, and
  refuses to compare a complex number.
\<close>

datatype py_value = FloatV float_value | ComplexV

fun pv_mult :: "py_value \<Rightarrow> py_value \<Rightarrow> py_value" where
  "pv_mult (FloatV a) (FloatV b) = FloatV (fl_mult a b)"
| "pv_mult a b = ComplexV"

fun np_minimum :: "py_value \<Rightarrow> py_value \<Rightarrow> py_value" where
  "np_minimum (FloatV NaN) (FloatV b) = FloatV NaN"
| "np_minimum (FloatV a) (FloatV NaN) = FloatV NaN"
| "np_minimum (FloatV a) (FloatV b) = FloatV (if fl_less b a then b else a)"
| "np_minimum a b = ComplexV"

fun py_min :: "py_value \<Rightarrow> py_value \<Rightarrow> py_error + py_value" where
  "py_min (FloatV a) (FloatV b) = Inr (FloatV (if fl_less b a then b else a))"
| "py_min a b = Inl TypeError"

text \<open>
  \<^verbatim>\<open>x ** y\<close> on finite floats: \<open>1.0\<close> at \<open>y = 0\<close>; \<^verbatim>\<open>ZeroDivisionError\<close> at
  \<open>x = 0\<close> with a negative \<open>y\<close>; \<^verbatim>\<open>OverflowError\<close> when the result is too large; a
  complex number at a negative base with a fractional exponent.
\<close>

definition float_pow :: "real \<Rightarrow> real \<Rightarrow> py_error + py_value" where
  "float_pow x y =
     (if y = 0 then Inr (FloatV (Finite 1))
      else if x = 0 then
        (if y < 0 then Inl ZeroDivisionError else Inr (FloatV (Finite 0)))
      else if overflow_threshold \<le> \<bar>x\<bar> powr y then Inl OverflowError
      else if 0 < x then Inr (FloatV (Finite (x powr y)))
      else if y = of_int \<lfloor>y\<rfloor> then
        Inr (FloatV (Finite ((if even \<lfloor>y\<rfloor> then 1 else - 1) * \<bar>x\<bar> powr y)))
      else Inr ComplexV)"

definition lr_decay :: "real \<Rightarrow> int \<Rightarrow> py_number \<Rightarrow> py_error + py_value" where
  "lr_decay init_lr global_step warmup_steps =
     (case py_float warmup_steps of Inl e \<Rightarrow> Inl e | Inr w \<Rightarrow>
      case int_to_float global_step of Inl e \<Rightarrow> Inl e | Inr k \<Rightarrow>
      let step = real_of_int (float_add_one k) in
      case float_pow w 0.5 of Inl e \<Rightarrow> Inl e | Inr a \<Rightarrow>
      case float_pow w (- 1.5) of Inl e \<Rightarrow> Inl e | Inr b \<Rightarrow>
      case float_pow step (- 0.5) of Inl e \<Rightarrow> Inl e | Inr c \<Rightarrow>
        Inr (pv_mult (pv_mult (FloatV (Finite init_lr)) a)
               (np_minimum (pv_mult (FloatV (Finite step)) b) c)))"

text \<open>The float \<^verbatim>\<open>step\<close> of line 46, where the conversion does not overflow.\<close>

definition float_step :: "int \<Rightarrow> real" where
  "float_step global_step = real_of_int (float_add_one (round_to_double global_step))"



definition wide_warmup :: real where
  "wide_warmup = 2 ^ 60"

text \<open>Rounding to a multiple of \<open>u\<close>, as \<open>round_to_double\<close> does at its unit.\<close>

definition nearest_even :: "int \<Rightarrow> int \<Rightarrow> int" where
  "nearest_even u a =
     (if u < 2 * (a mod u) \<or> (2 * (a mod u) = u \<and> odd (a div u)) then a div u + 1 else a div u) * u"

section \<open>The schedulers NoamLR and StepwiseGradualLR\<close>

text \<open>
  Both classes extend torch's \<^verbatim>\<open>_LRScheduler\<close>, which holds the step counter
  \<^verbatim>\<open>last_epoch\<close> and the optimizer's initial rates \<^verbatim>\<open>base_lrs\<close>.
\<close>

record lr_scheduler =
  last_epoch :: int
  base_lrs :: "real list"

record noam_lr = lr_scheduler +
  warmup_steps :: real

record stepwise_gradual_lr = lr_scheduler +
  gradual_learning_rates :: "(int \<times> real) list"

text \<open>A list comprehension whose element expression may raise: the first fault ends it.\<close>

fun map_result :: "('a \<Rightarrow> py_error + 'b) \<Rightarrow> 'a list \<Rightarrow> py_error + 'b list" where
  "map_result f [] = Inr []"
| "map_result f (x # xs) =
     (case f x of Inl e \<Rightarrow> Inl e
      | Inr y \<Rightarrow> (case map_result f xs of Inl e \<Rightarrow> Inl e | Inr ys \<Rightarrow> Inr (y # ys)))"

text \<open>
  \<^verbatim>\<open>step * self.warmup_steps**-1.5\<close> and \<^verbatim>\<open>step**-0.5\<close> each convert the
  \<^verbatim>\<open>int\<close> \<^verbatim>\<open>step\<close> to a float.
\<close>

definition NoamLR_get_lr :: "noam_lr \<Rightarrow> py_error + py_value list" where
  "NoamLR_get_lr self =
     (let step = max (last_epoch self) 1 in
      map_result
        (\<lambda>base_lr.
           case float_pow (warmup_steps self) 0.5 of Inl e \<Rightarrow> Inl e | Inr a \<Rightarrow>
           case float_pow (warmup_steps self) (- 1.5) of Inl e \<Rightarrow> Inl e | Inr b \<Rightarrow>
           case int_to_float step of Inl e \<Rightarrow> Inl e | Inr k \<Rightarrow>
           case float_pow (real_of_int k) (- 0.5) of Inl e \<Rightarrow> Inl e | Inr c \<Rightarrow>
           case py_min (pv_mult (FloatV (Finite (real_of_int k))) b) c of
             Inl e \<Rightarrow> Inl e
           | Inr m \<Rightarrow> Inr (pv_mult (pv_mult (FloatV (Finite base_lr)) a) m))
        (base_lrs self))"

text \<open>
  The variable \<^verbatim>\<open>first_false\<close> of \<^verbatim>\<open>StepwiseGradualLR.get_lr\<close> holds a numpy value:
  the index array \<^verbatim>\<open>np.where(...)[0]\<close>, or its first element once
  \<^verbatim>\<open>first_false[0]\<close> has been read. When the array is empty that read raises
  \<^verbatim>\<open>IndexError\<close>, which the \<^verbatim>\<open>except\<close> clause swallows: the variable keeps the
  empty array.
\<close>

datatype np_int = NpScalar int | NpArray "int list"

definition np_where_false :: "bool list \<Rightarrow> int list" where
  "np_where_false bs = map int (filter (\<lambda>i. bs ! i = False) [0..<length bs])"

definition try_first :: "int list \<Rightarrow> np_int" where
  "try_first idx = (case idx of [] \<Rightarrow> NpArray [] | i # rest \<Rightarrow> NpScalar i)"

definition np_sub :: "np_int \<Rightarrow> int \<Rightarrow> np_int" where
  "np_sub v k = (case v of NpScalar i \<Rightarrow> NpScalar (i - k) | NpArray xs \<Rightarrow> NpArray (map (\<lambda>i. i - k) xs))"

text \<open>
  \<^verbatim>\<open>np.max(v, 0)\<close>: the second argument is the axis, not a lower bound. A scalar is
  returned as it is (axis 0 is accepted for a zero-dimensional value); an empty array has
  no maximum and numpy raises \<^verbatim>\<open>ValueError\<close>.
\<close>

definition np_max_axis0 :: "np_int \<Rightarrow> py_error + int" where
  "np_max_axis0 v =
     (case v of
        NpScalar i \<Rightarrow> Inr i
      | NpArray [] \<Rightarrow> Inl ValueError
      | NpArray (x # xs) \<Rightarrow> Inr (fold max xs x))"

definition StepwiseGradualLR_get_lr :: "stepwise_gradual_lr \<Rightarrow> py_error + real list" where
  "StepwiseGradualLR_get_lr self =
     (let step = max (last_epoch self) 1;
          step_thresholds = map fst (gradual_learning_rates self);
          rates = map snd (gradual_learning_rates self);
          boolean_indeces = map (\<lambda>t. t < step) step_thresholds;
          first_false = try_first (np_where_false boolean_indeces)
      in
      case np_max_axis0 (np_sub first_false 1) of Inl e \<Rightarrow> Inl e | Inr k \<Rightarrow>
      case py_getitem rates k of Inl e \<Rightarrow> Inl e | Inr lr0 \<Rightarrow>
      case py_getitem step_thresholds (- 1) of Inl e \<Rightarrow> Inl e | Inr t_last \<Rightarrow>
      case (if step > t_last then py_getitem rates (- 1) else Inr lr0) of
        Inl e \<Rightarrow> Inl e | Inr lr1 \<Rightarrow>
      case py_getitem step_thresholds 1 of Inl e \<Rightarrow> Inl e | Inr t_second \<Rightarrow>
      case (if step < t_second then py_getitem rates 0 else Inr lr1) of
        Inl e \<Rightarrow> Inl e | Inr lr2 \<Rightarrow>
          Inr (replicate (length (base_lrs self)) lr2))"

definition example_gradual_learning_rates :: "(int \<times> real) list" where
  "example_gradual_learning_rates = [(0, 1 / 10), (100, 1 / 100), (200, 1 / 1000)]"

definition example_stepwise :: "int \<Rightarrow> real list \<Rightarrow> stepwise_gradual_lr" where
  "example_stepwise epoch lrs =
     \<lparr>last_epoch = epoch, base_lrs = lrs,
      gradual_learning_rates = example_gradual_learning_rates\<rparr>"

section \<open>set_weight_decay\<close>

text \<open>
  A parameter of the model: \<open>pid\<close> is the identity of the tensor object (torch lists
  every parameter object once), \<open>shape\<close> its \<^verbatim>\<open>param.shape\<close>. A group descriptor is the
  dictionary with the keys \<^verbatim>\<open>'params'\<close> and \<^verbatim>\<open>'weight_decay'\<close>; an optimizer's
  param group has \<^verbatim>\<open>'lr'\<close> as well.
\<close>

record parameter =
  pid :: nat
  shape :: "nat list"
  requires_grad :: bool

record 'p group_descriptor =
  params :: "'p list"
  weight_decay :: real

record 'p param_group = "'p group_descriptor" +
  lr :: real

definition default_skip_list :: "string set" where
  "default_skip_list = {''decoder.attention.v'', ''rnn'', ''lstm'', ''gru'', ''embedding''}"

text \<open>The test of line 80 that sends a parameter to the no-decay list.\<close>

definition no_decay_test :: "string set \<Rightarrow> string \<Rightarrow> parameter \<Rightarrow> bool" where
  "no_decay_test skip_list name param =
     (length (shape param) = 1 \<or> (\<exists>skip_name \<in> skip_list. str_in skip_name name))"

text \<open>The loop over \<^verbatim>\<open>model.named_parameters()\<close>; the state is \<open>(decay, no_decay)\<close>.\<close>

fun weight_decay_loop ::
  "string set \<Rightarrow> (string \<times> parameter) list \<Rightarrow> parameter list \<times> parameter list \<Rightarrow>
     parameter list \<times> parameter list" where
  "weight_decay_loop skip_list [] (decay, no_decay) = (decay, no_decay)"
| "weight_decay_loop skip_list ((name, param) # rest) (decay, no_decay) =
     (if name = ''capacitron_layer.beta'' then weight_decay_loop skip_list rest (decay, no_decay)
      else if \<not> requires_grad param then weight_decay_loop skip_list rest (decay, no_decay)
      else if no_decay_test skip_list name param
        then weight_decay_loop skip_list rest (decay, no_decay @ [param])
      else weight_decay_loop skip_list rest (decay @ [param], no_decay))"

definition set_weight_decay ::
  "(string \<times> parameter) list \<Rightarrow> real \<Rightarrow> string set \<Rightarrow> parameter group_descriptor list" where
  "set_weight_decay model wd skip_list =
     (case weight_decay_loop skip_list model ([], []) of
        (decay, no_decay) \<Rightarrow>
          [\<lparr>params = no_decay, weight_decay = 0\<rparr>, \<lparr>params = decay, weight_decay = wd\<rparr>])"

text \<open>The parameters the loop does not skip.\<close>

definition considered :: "string \<times> parameter \<Rightarrow> bool" where
  "considered np = (fst np \<noteq> ''capacitron_layer.beta'' \<and> requires_grad (snd np))"

text \<open>A small model: a weight, a bias, a recurrent weight, the reserved name, a frozen weight.\<close>

definition example_model :: "(string \<times> parameter) list" where
  "example_model =
     [(''decoder.linear.weight'', \<lparr>pid = 0, shape = [2, 3], requires_grad = True\<rparr>),
      (''decoder.linear.bias'', \<lparr>pid = 1, shape = [3], requires_grad = True\<rparr>),
      (''encoder.lstm.weight_ih'', \<lparr>pid = 2, shape = [4, 4], requires_grad = True\<rparr>),
      (''capacitron_layer.beta'', \<lparr>pid = 3, shape = [1], requires_grad = True\<rparr>),
      (''postnet.weight'', \<lparr>pid = 4, shape = [2, 2], requires_grad = False\<rparr>)]"

section \<open>adam_weight_decay\<close>

text \<open>
  The optimizer's groups refer to tensor objects, which the function updates in place:
  a group holds addresses, and the store maps an address to the tensor's \<^verbatim>\<open>data\<close> and
  \<^verbatim>\<open>grad\<close>.
\<close>

type_synonym addr = nat

record tensor =
  data :: "real list"
  grad :: "real list option"

type_synonym store = "addr \<Rightarrow> tensor"

text \<open>\<^verbatim>\<open>a.add(b, alpha=factor)\<close>: a new tensor, \<open>a + factor * b\<close> element by element.\<close>

definition tensor_add :: "real list \<Rightarrow> real list \<Rightarrow> real \<Rightarrow> real list" where
  "tensor_add a b alpha = map (\<lambda>(x, y). x + alpha * y) (zip a b)"

text \<open>
  The inner and the outer loop; the state is the store and the local variable
  \<^verbatim>\<open>current_lr\<close>, unassigned (\<open>None\<close>) until the inner body first runs.
\<close>

fun adam_params_loop ::
  "addr param_group \<Rightarrow> addr list \<Rightarrow> store \<times> real option \<Rightarrow> store \<times> real option" where
  "adam_params_loop grp [] (h, current_lr) = (h, current_lr)"
| "adam_params_loop grp (param # rest) (h, current_lr) =
     (let factor = - weight_decay grp * lr grp in
      adam_params_loop grp rest
        (h(param := (h param)\<lparr>data := tensor_add (data (h param)) (data (h param)) factor\<rparr>),
         Some (lr grp)))"

fun adam_groups_loop ::
  "addr param_group list \<Rightarrow> store \<times> real option \<Rightarrow> store \<times> real option" where
  "adam_groups_loop [] st = st"
| "adam_groups_loop (grp # rest) st =
     adam_groups_loop rest (adam_params_loop grp (params grp) st)"

definition adam_weight_decay ::
  "store \<Rightarrow> addr param_group list \<Rightarrow> py_error + (store \<times> addr param_group list \<times> real)" where
  "adam_weight_decay h optimizer =
     (case adam_groups_loop optimizer (h, None) of
        (h', None) \<Rightarrow> Inl UnboundLocalError
      | (h', Some current_lr) \<Rightarrow> Inr (h', optimizer, current_lr))"

text \<open>
  What the decay is said to do to one tensor of a group: every element times
  \<open>1 - lr * weight_decay\<close>, the gradient as it was.
\<close>

definition decayed :: "addr param_group \<Rightarrow> tensor \<Rightarrow> tensor" where
  "decayed grp t = t\<lparr>data := map (\<lambda>x. x * (1 - lr grp * weight_decay grp)) (data t)\<rparr>"

definition nonempty_groups :: "addr param_group list \<Rightarrow> addr param_group list" where
  "nonempty_groups optimizer = filter (\<lambda>grp. params grp \<noteq> []) optimizer"

definition example_store :: store where
  "example_store a = \<lparr>data = [1, 2], grad = Some [3, 4]\<rparr>"

definition example_optimizer :: "addr param_group list" where
  "example_optimizer =
     [\<lparr>params = [0, 1], weight_decay = 1 / 2, lr = 1 / 10\<rparr>,
      \<lparr>params = [2], weight_decay = 1 / 4, lr = 1\<rparr>,
      \<lparr>params = [], weight_decay = 0, lr = 5\<rparr>]"

text \<open>An optimizer whose only group lists the same tensor twice.\<close>

definition duplicate_optimizer :: "addr param_group list" where
  "duplicate_optimizer = [\<lparr>params = [0, 0], weight_decay = 1 / 2, lr = 1 / 2\<rparr>]"

section \<open>Properties of gradual_training_scheduler\<close>

lemma gradual_loop_filter:
  "gradual_loop scaled cfg acc =
     (if filter (\<lambda>values. fst values \<le> scaled) cfg = [] then acc
      else Some (last (filter (\<lambda>values. fst values \<le> scaled) cfg)))"
  by (induction cfg arbitrary: acc) auto

lemma num_gpus_max: "(if d = 0 then 1 else d) = max d (1::nat)"
  by simp

lemma sorted_last_filter_greatest:
  fixes cfg :: "(int \<times> 'b) list"
  assumes "sorted_wrt (<) (map fst cfg)" and "v \<in> set cfg" and "P v"
  shows "fst v \<le> fst (last (filter P cfg))"
  using assms
proof (induction cfg arbitrary: v)
  case Nil
  then show ?case by simp
next
  case (Cons x xs)
  show ?case
  proof (cases "filter P xs = []")
    case True
    with Cons.prems have "v = x"
      by (auto simp: filter_empty_conv)
    with True Cons.prems show ?thesis by simp
  next
    case False
    then obtain u where u: "u \<in> set xs" "P u"
      by (auto simp: filter_empty_conv)
    have sorted: "sorted_wrt (<) (map fst xs)"
      using Cons.prems(1) by simp
    have lastxs: "last (filter P (x # xs)) = last (filter P xs)"
      using False by simp
    show ?thesis
    proof (cases "v = x")
      case True
      have "fst x < fst u"
        using Cons.prems(1) u(1) by auto
      moreover have "fst u \<le> fst (last (filter P xs))"
        using Cons.IH [OF sorted u] .
      ultimately show ?thesis
        using True lastxs by simp
    next
      case False
      with Cons.prems have "v \<in> set xs" by simp
      then show ?thesis
        using Cons.IH sorted Cons.prems(3) lastxs by simp
    qed
  qed
qed

text \<open>
  Claim C2. When the thresholds of the config are strictly increasing and some entry's
  threshold is at most \<open>global_step * max(device_count, 1)\<close>, the scheduler returns the
  second and third components of the last such entry, which is also the one with the
  greatest such threshold. With the entries \<open>(0,32,1), (1000,16,2), (2000,8,4)\<close> and one
  device it returns \<open>(32,1)\<close> at step 500, \<open>(16,2)\<close> at step 1500 and \<open>(8,4)\<close> at step
  5000.
\<close>

theorem gradual_training_scheduler_last_qualifying:
  assumes "sorted_wrt (<) (map fst cfg)"
    and "qualifying device_count global_step cfg \<noteq> []"
  shows "gradual_training_scheduler device_count global_step cfg =
           Inr (snd (last (qualifying device_count global_step cfg)))
       \<and> list_all (\<lambda>v. fst v \<le> fst (last (qualifying device_count global_step cfg)))
           (qualifying device_count global_step cfg)
       \<and> gradual_training_scheduler 1 500 example_gradual_training = Inr (32, 1)
       \<and> gradual_training_scheduler 1 1500 example_gradual_training = Inr (16, 2)
       \<and> gradual_training_scheduler 1 5000 example_gradual_training = Inr (8, 4)"
proof -
  let ?s = "global_step * int (max device_count 1)"
  let ?P = "\<lambda>values::gradual_entry. fst values \<le> ?s"
  have q: "qualifying device_count global_step cfg = filter ?P cfg"
    by (simp add: qualifying_def)
  have "gradual_loop ?s cfg None = Some (last (filter ?P cfg))"
    using assms(2) unfolding q by (simp add: gradual_loop_filter)
  then have sel: "gradual_training_scheduler device_count global_step cfg =
      Inr (snd (last (qualifying device_count global_step cfg)))"
    unfolding gradual_training_scheduler_def Let_def num_gpus_max q by simp
  have greatest: "list_all (\<lambda>v. fst v \<le> fst (last (filter ?P cfg))) (filter ?P cfg)"
    unfolding list_all_iff
  proof
    fix v assume "v \<in> set (filter ?P cfg)"
    then have "v \<in> set cfg" "?P v" by auto
    then show "fst v \<le> fst (last (filter ?P cfg))"
      using sorted_last_filter_greatest [OF assms(1), of v ?P] by blast
  qed
  have e1: "gradual_training_scheduler 1 500 example_gradual_training = Inr (32, 1)"
    by (simp add: gradual_training_scheduler_def example_gradual_training_def)
  have e2: "gradual_training_scheduler 1 1500 example_gradual_training = Inr (16, 2)"
    by (simp add: gradual_training_scheduler_def example_gradual_training_def)
  have e3: "gradual_training_scheduler 1 5000 example_gradual_training = Inr (8, 4)"
    by (simp add: gradual_training_scheduler_def example_gradual_training_def)
  show ?thesis
    using sel greatest e1 e2 e3 unfolding q by simp
qed

theorem gradual_training_scheduler_last_qualifying_witness:
  "gradual_training_scheduler 0 1500 example_gradual_training = Inr (16, 2)"
proof -
  have s: "sorted_wrt (<) (map fst example_gradual_training)"
    by (simp add: example_gradual_training_def)
  have n: "qualifying 0 1500 example_gradual_training \<noteq> []"
    by (simp add: qualifying_def example_gradual_training_def)
  have l: "snd (last (qualifying 0 1500 example_gradual_training)) = (16, 2)"
    by (simp add: qualifying_def example_gradual_training_def)
  show ?thesis
    using gradual_training_scheduler_last_qualifying [OF s n] l by simp
qed

text \<open>
  Claim C8, as stated, asks for an explicit "no schedule found for step" error. The
  function has no such check: at step \<open>-1\<close> no entry of the example config qualifies,
  \<^verbatim>\<open>new_values\<close> is still \<^verbatim>\<open>None\<close> after the loop, and \<^verbatim>\<open>new_values[1]\<close> raises the
  interpreter's \<^verbatim>\<open>TypeError\<close> for subscripting \<^verbatim>\<open>None\<close>.
\<close>

theorem gradual_training_scheduler_explicit_error_counterexample:
  "qualifying 1 (- 1) example_gradual_training = []
   \<and> gradual_training_scheduler 1 (- 1) example_gradual_training = Inl TypeError"
  by (simp add: qualifying_def gradual_training_scheduler_def example_gradual_training_def)

text \<open>
  Claim C8, amended. Whenever no entry's threshold is at most
  \<open>global_step * max(device_count, 1)\<close>, the scheduler fails, and the failure is the
  \<^verbatim>\<open>TypeError\<close> of subscripting the \<^verbatim>\<open>None\<close> the loop left in \<^verbatim>\<open>new_values\<close>.
\<close>

theorem gradual_training_scheduler_none_qualifying:
  assumes "qualifying device_count global_step cfg = []"
  shows "gradual_training_scheduler device_count global_step cfg = Inl TypeError"
proof -
  have "gradual_loop (global_step * int (max device_count 1)) cfg None = None"
    using assms by (simp add: gradual_loop_filter qualifying_def)
  then show ?thesis
    unfolding gradual_training_scheduler_def Let_def num_gpus_max by simp
qed

theorem gradual_training_scheduler_none_qualifying_witness:
  "gradual_training_scheduler 2 (- 5) [(0, 32, 1)] = Inl TypeError"
proof -
  have "qualifying 2 (- 5) [(0, 32, 1)] = []"
    by (simp add: qualifying_def)
  then show ?thesis
    by (rule gradual_training_scheduler_none_qualifying)
qed

section \<open>Properties of check_update\<close>

text \<open>The substring test is the library's \<open>sublist\<close>: some prefix and suffix surround \<open>sub\<close>.\<close>

lemma str_in_sublist: "str_in sub s = sublist sub s"
  by (induction s) (auto simp: sublist_Cons_right)

text \<open>
  Claim C1, as stated, has the flag set for a NaN norm as well. Both branches test
  \<^verbatim>\<open>isinf\<close> only: a NaN norm, returned as a float or as a tensor, leaves
  \<^verbatim>\<open>skip_flag\<close> false.
\<close>

theorem check_update_nan_counterexample:
  "isnan (norm_of (fst (check_update (clip_returning (PyFloat NaN)) [(''decoder.weight'', 0::nat)] 1 False None)))
   \<and> snd (check_update (clip_returning (PyFloat NaN)) [(''decoder.weight'', 0::nat)] 1 False None) = False
   \<and> isnan (norm_of (fst (check_update (clip_returning (Tensor NaN)) [(''decoder.weight'', 0::nat)] 1 False None)))
   \<and> snd (check_update (clip_returning (Tensor NaN)) [(''decoder.weight'', 0::nat)] 1 False None) = False"
  by (simp add: check_update_def clip_returning_def py_not_def norm_of_def isnan_def
      np_isinf_def torch_isinf_def)

text \<open>
  Claim C1, amended. For every clip primitive, model, threshold and choice of the two
  options, \<^verbatim>\<open>check_update\<close> hands back the norm the primitive returned for the selected
  parameters (the explicit list when one is given and not empty, else the model's
  parameters, without those named \<open>stopnet\<close> when they are to be ignored), and the flag
  is true exactly when that norm is plus or minus infinity, whether it is a float or a
  tensor.
\<close>

theorem check_update_flags_infinite:
  "fst (check_update clip_grad_norm model grad_clip ignore_stopnet amp_opt_params) =
     clip_grad_norm
       (if py_not amp_opt_params then
          (if ignore_stopnet
           then map snd (filter (\<lambda>(name, param). \<not> str_in ''stopnet'' name) model)
           else map snd model)
        else the amp_opt_params) grad_clip
   \<and> snd (check_update clip_grad_norm model grad_clip ignore_stopnet amp_opt_params) =
     (norm_of (clip_grad_norm
        (if py_not amp_opt_params then
           (if ignore_stopnet
            then map snd (filter (\<lambda>(name, param). \<not> str_in ''stopnet'' name) model)
            else map snd model)
         else the amp_opt_params) grad_clip) = PosInf
      \<or> norm_of (clip_grad_norm
        (if py_not amp_opt_params then
           (if ignore_stopnet
            then map snd (filter (\<lambda>(name, param). \<not> str_in ''stopnet'' name) model)
            else map snd model)
         else the amp_opt_params) grad_clip) = NegInf)"
proof -
  let ?ps = "if py_not amp_opt_params then
          (if ignore_stopnet
           then map snd (filter (\<lambda>(name, param). \<not> str_in ''stopnet'' name) model)
           else map snd model)
        else the amp_opt_params"
  let ?g = "clip_grad_norm ?ps grad_clip"
  have norm: "fst (check_update clip_grad_norm model grad_clip ignore_stopnet amp_opt_params) = ?g"
    by (simp add: check_update_def Let_def)
  have flag: "snd (check_update clip_grad_norm model grad_clip ignore_stopnet amp_opt_params) =
      (case ?g of PyFloat x \<Rightarrow> np_isinf x | Tensor x \<Rightarrow> torch_isinf x)"
    by (auto simp: check_update_def Let_def split: grad_norm_value.splits)
  have "(case ?g of PyFloat x \<Rightarrow> np_isinf x | Tensor x \<Rightarrow> torch_isinf x) =
      (norm_of ?g = PosInf \<or> norm_of ?g = NegInf)"
  proof (cases ?g)
    case (PyFloat x)
    then show ?thesis
      by (cases x) (simp_all add: np_isinf_def norm_of_def)
  next
    case (Tensor x)
    then show ?thesis
      by (cases x) (simp_all add: torch_isinf_def norm_of_def)
  qed
  with norm flag show ?thesis by simp
qed

text \<open>
  A primitive whose norm is infinite exactly when the stop-net bias is among the
  parameters it is given: the flag follows the selection.
\<close>

theorem check_update_flags_infinite_witness:
  "check_update example_clip
      [(''decoder.stopnet.bias'', 7), (''decoder.weight'', 8)] 1 True (Some []) =
     (PyFloat (Finite 1), False)
   \<and> check_update example_clip
      [(''decoder.stopnet.bias'', 7), (''decoder.weight'', 8)] 1 False None =
     (Tensor PosInf, True)
   \<and> check_update example_clip
      [(''decoder.stopnet.bias'', 7), (''decoder.weight'', 8)] 1 True (Some [7]) =
     (Tensor PosInf, True)"
  using
    check_update_flags_infinite [of example_clip
      "[(''decoder.stopnet.bias'', 7), (''decoder.weight'', 8)]" 1 True "Some []"]
    check_update_flags_infinite [of example_clip
      "[(''decoder.stopnet.bias'', 7), (''decoder.weight'', 8)]" 1 False None]
    check_update_flags_infinite [of example_clip
      "[(''decoder.stopnet.bias'', 7), (''decoder.weight'', 8)]" 1 True "Some [7]"]
  by (simp add: prod_eq_iff py_not_def norm_of_def example_clip_def)

section \<open>Properties of the conversion to float\<close>

lemma round_to_double_small: "bitlen \<bar>n\<bar> \<le> 53 \<Longrightarrow> round_to_double n = n"
  by (simp add: round_to_double_def Let_def)

lemma round_to_double_large:
  "0 < n \<Longrightarrow> 53 < bitlen n \<Longrightarrow> round_to_double n = nearest_even (2 ^ nat (bitlen n - 53)) n"
  by (simp add: round_to_double_def Let_def nearest_even_def)

lemma nearest_even_lower: "0 < u \<Longrightarrow> (a div u) * u \<le> nearest_even u a"
  by (simp add: nearest_even_def)

lemma nearest_even_upper: "0 < u \<Longrightarrow> nearest_even u a \<le> (a div u + 1) * u"
  by (simp add: nearest_even_def)

lemma nearest_even_mono:
  assumes "0 < u" and "a \<le> b"
  shows "nearest_even u a \<le> nearest_even u b"
proof (cases "a div u = b div u")
  case True
  have "a mod u \<le> b mod u"
    using assms True by (metis add_le_cancel_left mult_div_mod_eq)
  with True assms(1) show ?thesis
    by (auto simp: nearest_even_def)
next
  case False
  have "a div u \<le> b div u"
    using assms by (simp add: zdiv_mono1)
  with False have "a div u + 1 \<le> b div u" by simp
  then have "(a div u + 1) * u \<le> (b div u) * u"
    using assms(1) by (simp add: mult_right_mono)
  with nearest_even_upper [OF assms(1), of a] nearest_even_lower [OF assms(1), of b]
  show ?thesis by linarith
qed

lemma round_to_double_ge_pow:
  assumes "0 < n" and "53 < bitlen n"
  shows "2 ^ nat (bitlen n - 1) \<le> round_to_double n"
proof -
  let ?u = "2 ^ nat (bitlen n - 53) :: int"
  have u: "0 < ?u" by simp
  have "nat (bitlen n - 1) = 52 + nat (bitlen n - 53)"
    using assms(2) by simp
  then have split: "(2::int) ^ nat (bitlen n - 1) = 2 ^ 52 * ?u"
    by (simp only: power_add)
  have "2 ^ nat (bitlen n - 1) \<le> n"
    using bitlen_bounds [OF assms(1)] by simp
  then have "(2 ^ 52 * ?u) div ?u \<le> n div ?u"
    unfolding split by (rule zdiv_mono1) simp
  then have "2 ^ 52 \<le> n div ?u" by simp
  then have "2 ^ 52 * ?u \<le> (n div ?u) * ?u"
    by (simp add: mult_right_mono)
  also have "\<dots> \<le> nearest_even ?u n"
    by (rule nearest_even_lower [OF u])
  finally show ?thesis
    unfolding split round_to_double_large [OF assms] .
qed

lemma round_to_double_le_pow:
  assumes "0 < n"
  shows "round_to_double n \<le> 2 ^ nat (bitlen n)"
proof (cases "53 < bitlen n")
  case False
  then have "round_to_double n = n"
    using assms by (simp add: round_to_double_small)
  with bitlen_bounds [OF assms] show ?thesis by simp
next
  case True
  let ?u = "2 ^ nat (bitlen n - 53) :: int"
  have u: "0 < ?u" by simp
  have "nat (bitlen n) = 53 + nat (bitlen n - 53)"
    using True by simp
  then have split: "(2::int) ^ nat (bitlen n) = 2 ^ 53 * ?u"
    by (simp only: power_add)
  have "n < 2 ^ 53 * ?u"
    using bitlen_bounds [OF assms] unfolding split by simp
  moreover have "n div ?u * ?u + n mod ?u = n" by (rule div_mult_mod_eq)
  moreover have "0 \<le> n mod ?u" by simp
  ultimately have "n div ?u * ?u < 2 ^ 53 * ?u" by linarith
  then have "n div ?u < 2 ^ 53"
    using u by (simp only: mult_less_cancel_right_pos)
  then have "n div ?u + 1 \<le> 2 ^ 53" by simp
  then have "(n div ?u + 1) * ?u \<le> 2 ^ 53 * ?u"
    by (simp add: mult_right_mono)
  with nearest_even_upper [OF u, of n] show ?thesis
    unfolding split round_to_double_large [OF assms True] by linarith
qed

lemma bitlen_mono: "a \<le> b \<Longrightarrow> bitlen a \<le> bitlen b"
  by (metis bitlen_le_iff_power bitlen_nonneg order_le_less_trans order_refl)

lemma round_to_double_mono_pos:
  assumes "0 < m" and "m \<le> n"
  shows "round_to_double m \<le> round_to_double n"
proof -
  have n: "0 < n" using assms by simp
  have bl: "bitlen m \<le> bitlen n" using assms(2) by (rule bitlen_mono)
  show ?thesis
  proof (cases "53 < bitlen n")
    case False
    with bl have "round_to_double m = m" "round_to_double n = n"
      using assms n by (simp_all add: round_to_double_small)
    with assms(2) show ?thesis by simp
  next
    case big: True
    show ?thesis
    proof (cases "bitlen m = bitlen n")
      case True
      with big assms n show ?thesis
        by (simp add: round_to_double_large nearest_even_mono)
    next
      case False
      with bl have "bitlen m \<le> bitlen n - 1" by simp
      then have "(2::int) ^ nat (bitlen m) \<le> 2 ^ nat (bitlen n - 1)"
        by (intro power_increasing) simp_all
      with round_to_double_le_pow [OF assms(1)] round_to_double_ge_pow [OF n big]
      show ?thesis by linarith
    qed
  qed
qed

lemma round_to_double_0 [simp]: "round_to_double 0 = 0"
  by (simp add: round_to_double_def)

lemma round_to_double_pos: "0 < n \<Longrightarrow> 0 < round_to_double n"
proof (cases "53 < bitlen n")
  case True
  assume "0 < n"
  from round_to_double_ge_pow [OF this True] show ?thesis
    by (smt (verit) zero_less_power)
next
  case False
  assume "0 < n"
  with False show ?thesis by (simp add: round_to_double_small)
qed

lemma round_to_double_mono:
  assumes "0 \<le> m" and "m \<le> n"
  shows "round_to_double m \<le> round_to_double n"
proof (cases "m = 0")
  case True
  show ?thesis
  proof (cases "n = 0")
    case True
    with \<open>m = 0\<close> show ?thesis by simp
  next
    case False
    with assms have "0 < n" by simp
    from round_to_double_pos [OF this] \<open>m = 0\<close> show ?thesis by simp
  qed
next
  case False
  with assms(1) have "0 < m" by simp
  then show ?thesis using assms(2) by (rule round_to_double_mono_pos)
qed

lemma round_to_double_exact: "\<bar>n\<bar> \<le> 2 ^ 53 \<Longrightarrow> round_to_double n = n"
proof (cases "\<bar>n\<bar> < 2 ^ 53")
  case True
  then have "bitlen \<bar>n\<bar> \<le> 53" by (simp add: bitlen_le_iff_power)
  then show ?thesis by (rule round_to_double_small)
next
  case False
  assume "\<bar>n\<bar> \<le> 2 ^ 53"
  with False have a: "\<bar>n\<bar> = 2 ^ 53" by simp
  have b: "bitlen 9007199254740992 = 54"
    using bitlen_twopow_add_eq [of 0 53] by simp
  from a have "n = 2 ^ 53 \<or> n = - (2 ^ 53)" by linarith
  then show ?thesis
    by (auto simp: round_to_double_def Let_def b)
qed

section \<open>Properties of lr_decay and NoamLR\<close>

lemma overflow_threshold_gt_one: "1 < overflow_threshold"
proof -
  have "(2::real) ^ 970 * 2 \<le> 2 ^ 970 * 2 ^ 54" by simp
  then have "(2::real) ^ 970 + 2 ^ 970 \<le> 2 ^ 1024"
    by (simp flip: power_add)
  moreover have "(1::real) < 2 ^ 970"
    by (rule one_less_power) simp_all
  ultimately show ?thesis
    by (simp add: overflow_threshold_def)
qed

lemma int_to_float_ok:
  "\<bar>n\<bar> < 2 ^ 1024 - 2 ^ 970 \<Longrightarrow> int_to_float n = Inr (round_to_double n)"
  by (simp add: int_to_float_def)

lemma float_step_ge_one:
  assumes "0 \<le> g"
  shows "1 \<le> float_step g"
proof -
  have "0 \<le> round_to_double g"
    using round_to_double_mono [OF order_refl assms] by simp
  then have "0 < round_to_double g + 1" by simp
  from round_to_double_pos [OF this] show ?thesis
    by (simp add: float_step_def float_add_one_def)
qed



lemma float_pow_pos:
  "0 < x \<Longrightarrow> y \<noteq> 0 \<Longrightarrow> x powr y < overflow_threshold \<Longrightarrow>
     float_pow x y = Inr (FloatV (Finite (x powr y)))"
  by (simp add: float_pow_def)

lemma fl_round_pos_cases:
  "0 < r \<Longrightarrow> fl_round r = (if overflow_threshold \<le> r then PosInf else Finite r)"
  using overflow_threshold_gt_one by (simp add: fl_round_def)

text \<open>The inner minimum: an overflowing product never is the smaller argument.\<close>

lemma np_minimum_step:
  assumes "0 < s" and "0 < b" and "0 < c" and "c \<le> 1"
  shows "np_minimum (pv_mult (FloatV (Finite s)) (FloatV (Finite b))) (FloatV (Finite c)) =
     FloatV (Finite (min (s * b) c))"
proof (cases "overflow_threshold \<le> s * b")
  case True
  have "c < s * b"
    using True assms(4) overflow_threshold_gt_one by linarith
  moreover have "fl_round (s * b) = PosInf"
    using True by (simp add: fl_round_def)
  ultimately show ?thesis by (simp add: min_def)
next
  case False
  have "0 < s * b" using assms by simp
  then have "fl_round (s * b) = Finite (s * b)"
    using False by (simp add: fl_round_pos_cases)
  then show ?thesis by (auto simp: min_def)
qed

lemma py_min_step:
  assumes "0 < s" and "0 < b" and "0 < c" and "c \<le> 1"
  shows "py_min (pv_mult (FloatV (Finite s)) (FloatV (Finite b))) (FloatV (Finite c)) =
     Inr (FloatV (Finite (min (s * b) c)))"
proof (cases "overflow_threshold \<le> s * b")
  case True
  have "c < s * b"
    using True assms(4) overflow_threshold_gt_one by linarith
  moreover have "fl_round (s * b) = PosInf"
    using True by (simp add: fl_round_def)
  ultimately show ?thesis by (simp add: min_def)
next
  case False
  have "0 < s * b" using assms by simp
  then have "fl_round (s * b) = Finite (s * b)"
    using False by (simp add: fl_round_pos_cases)
  then show ?thesis by (auto simp: min_def)
qed

lemma sqrt_in_range:
  assumes "0 < w" and "w < overflow_threshold"
  shows "w powr 0.5 < overflow_threshold"
proof (cases "w \<le> 1")
  case True
  then have "w powr 0.5 \<le> 1 powr 0.5"
    using assms(1) by (intro powr_mono2) simp_all
  then have "w powr 0.5 \<le> 1" by simp
  then show ?thesis using overflow_threshold_gt_one by linarith
next
  case False
  then have "w powr 0.5 \<le> w powr 1"
    by (intro powr_mono) simp_all
  then show ?thesis using assms by simp
qed

lemma inv_sqrt_le_one:
  fixes s :: real
  assumes "1 \<le> s"
  shows "0 < s powr (- 0.5)" and "s powr (- 0.5) \<le> 1"
proof -
  show "0 < s powr (- 0.5)" using assms by simp
  have "s powr (- 0.5) \<le> s powr 0"
    using assms by (intro powr_mono) simp_all
  then show "s powr (- 0.5) \<le> 1" using assms by simp
qed

text \<open>The value of \<open>lr_decay\<close> where no conversion and no power overflows.\<close>

lemma lr_decay_value:
  assumes "0 \<le> g" and "g < 2 ^ 1024 - 2 ^ 970"
    and "py_float ws = Inr w" and "0 < w" and "w < overflow_threshold"
    and "w powr (- 1.5) < overflow_threshold"
  shows "lr_decay init_lr g ws =
     Inr (FloatV (fl_mult (fl_mult (Finite init_lr) (Finite (w powr 0.5)))
       (Finite (min (float_step g * w powr (- 1.5)) (float_step g powr (- 0.5))))))"
proof -
  let ?s = "float_step g"
  have conv: "int_to_float g = Inr (round_to_double g)"
    using assms(1,2) by (intro int_to_float_ok) simp
  have s: "1 \<le> ?s" using assms(1) by (rule float_step_ge_one)
  have a: "float_pow w 0.5 = Inr (FloatV (Finite (w powr 0.5)))"
    using assms(4,5) by (intro float_pow_pos sqrt_in_range) simp_all
  have b: "float_pow w (- 1.5) = Inr (FloatV (Finite (w powr (- 1.5))))"
    using assms(4,6) by (intro float_pow_pos) simp_all
  have "?s powr (- 0.5) < overflow_threshold"
    using inv_sqrt_le_one(2) [OF s] overflow_threshold_gt_one by linarith
  then have c: "float_pow ?s (- 0.5) = Inr (FloatV (Finite (?s powr (- 0.5))))"
    using s by (intro float_pow_pos) simp_all
  have m: "np_minimum (pv_mult (FloatV (Finite ?s)) (FloatV (Finite (w powr (- 1.5)))))
        (FloatV (Finite (?s powr (- 0.5)))) =
      FloatV (Finite (min (?s * w powr (- 1.5)) (?s powr (- 0.5))))"
    using s assms(4) inv_sqrt_le_one [OF s] by (intro np_minimum_step) simp_all
  have step: "real_of_int (float_add_one (round_to_double g)) = ?s"
    by (simp add: float_step_def)
  show ?thesis
    unfolding lr_decay_def assms(3) conv
    by (simp only: sum.case Let_def step a b c m [unfolded pv_mult.simps] pv_mult.simps)
qed


lemma warmup_branch:
  fixes s w :: real
  assumes "0 < s" and "s \<le> w"
  shows "s * w powr (- 1.5) \<le> s powr (- 0.5)"
proof -
  have w: "0 < w" using assms by linarith
  have le: "s powr 1.5 \<le> w powr 1.5"
    using assms by (intro powr_mono2) auto
  have "s * w powr (- 1.5) = s powr 1.5 * s powr (- 0.5) * w powr (- 1.5)"
    using assms(1) by (simp flip: powr_add)
  also have "\<dots> = (s powr 1.5 / w powr 1.5) * s powr (- 0.5)"
    by (simp add: powr_minus divide_simps)
  also have "\<dots> \<le> 1 * s powr (- 0.5)"
    using le w by (intro mult_right_mono) (auto simp: divide_simps)
  finally show ?thesis by simp
qed


text \<open>The two closed forms: linear up to the warm-up step, inverse square root after it.\<close>

lemma lr_linear:
  fixes s w :: real
  assumes "0 < s" and "s \<le> w"
  shows "w powr 0.5 * min (s * w powr (- 1.5)) (s powr (- 0.5)) = s / w"
proof -
  have w: "0 < w" using assms by linarith
  have "w powr 0.5 * w powr (- 1.5) = w powr (- 1)"
    by (simp flip: powr_add)
  also have "\<dots> = 1 / w"
    using w by (simp add: powr_minus divide_simps)
  finally have "w powr 0.5 * (s * w powr (- 1.5)) = s / w"
    by (simp add: mult.left_commute)
  then show ?thesis
    using warmup_branch [OF assms] by (simp add: min_def)
qed

lemma map_result_total: "map_result (\<lambda>x. Inr (f x)) xs = Inr (map f xs)"
  by (induction xs) simp_all

lemma neg_power_le_one:
  fixes w :: real
  assumes "1 \<le> w"
  shows "w powr (- 1.5) \<le> 1"
proof -
  have "w powr (- 1.5) \<le> w powr 0"
    using assms by (intro powr_mono) simp_all
  then show ?thesis using assms by simp
qed





lemma overflow_threshold_big: "2 ^ 1000 < overflow_threshold"
proof -
  have "(2::real) ^ 1000 + 2 ^ 970 \<le> 2 ^ 1000 + 2 ^ 1000" by simp
  also have "\<dots> = (2::real) ^ 1001" by simp
  also have "\<dots> < 2 ^ 1024" by (rule power_strict_increasing) simp_all
  finally show ?thesis by (simp add: overflow_threshold_def)
qed

lemma small_below_overflow: "\<bar>n\<bar> \<le> 2 ^ 53 \<Longrightarrow> \<bar>n\<bar> < (2::int) ^ 1024 - 2 ^ 970"
proof -
  assume a: "\<bar>n\<bar> \<le> 2 ^ 53"
  have "(2::int) ^ 53 + 2 ^ 970 \<le> 2 ^ 970 + 2 ^ 970"
    by (intro add_right_mono power_increasing) simp_all
  also have "\<dots> = (2::int) ^ 971" by simp
  also have "\<dots> < 2 ^ 1024" by (rule power_strict_increasing) simp_all
  finally have "(2::int) ^ 53 + 2 ^ 970 < 2 ^ 1024" .
  with a show ?thesis by linarith
qed

lemma int_to_float_small: "\<bar>n\<bar> \<le> 2 ^ 53 \<Longrightarrow> int_to_float n = Inr n"
  using int_to_float_ok [OF small_below_overflow] round_to_double_exact by simp










lemma round_to_double_tie_down: "round_to_double (2 ^ 53 + 1) = 2 ^ 53"
  by code_simp

lemma round_to_double_even: "round_to_double (2 ^ 53 + 2) = 2 ^ 53 + 2"
  by code_simp

lemma float_step_stalls: "float_step (2 ^ 53 - 1) = 2 ^ 53" "float_step (2 ^ 53) = 2 ^ 53"
proof -
  have a: "round_to_double (2 ^ 53 - 1) = 2 ^ 53 - 1" "round_to_double (2 ^ 53) = 2 ^ 53"
    by (rule round_to_double_exact, simp)+
  show "float_step (2 ^ 53 - 1) = 2 ^ 53"
    unfolding float_step_def float_add_one_def a using a(2) by simp
  show "float_step (2 ^ 53) = 2 ^ 53"
    unfolding float_step_def float_add_one_def a round_to_double_tie_down by simp
qed




text \<open>One element of the scheduler's comprehension, at a step the conversion leaves exact.\<close>

lemma noam_element:
  assumes "0 < w" and "1 \<le> e" and "e \<le> 2 ^ 53"
  shows "(case float_pow w 0.5 of Inl x \<Rightarrow> Inl x | Inr a \<Rightarrow>
           case float_pow w (- 1.5) of Inl x \<Rightarrow> Inl x | Inr b \<Rightarrow>
           case int_to_float e of Inl x \<Rightarrow> Inl x | Inr k \<Rightarrow>
           case float_pow (real_of_int k) (- 0.5) of Inl x \<Rightarrow> Inl x | Inr c \<Rightarrow>
           case py_min (pv_mult (FloatV (Finite (real_of_int k))) b) c of
             Inl x \<Rightarrow> Inl x
           | Inr m \<Rightarrow> Inr (pv_mult (pv_mult (FloatV (Finite base_lr)) a) m)) =
         lr_decay base_lr (e - 1) (FloatArg w)"
proof -
  let ?s = "real_of_int e"
  have s: "1 \<le> ?s" using assms(2) by simp
  have conv: "int_to_float e = Inr e" "int_to_float (e - 1) = Inr (e - 1)"
    using assms(2,3) by (simp_all add: int_to_float_small)
  have "float_add_one (e - 1) = e"
    using assms(2,3) by (simp add: float_add_one_def round_to_double_exact)
  then have step: "real_of_int (float_add_one (e - 1)) = ?s" by simp
  have "?s powr (- 0.5) < overflow_threshold"
    using inv_sqrt_le_one(2) [OF s] overflow_threshold_gt_one by linarith
  then have c: "float_pow ?s (- 0.5) = Inr (FloatV (Finite (?s powr (- 0.5))))"
    using s by (intro float_pow_pos) simp_all
  have pf: "py_float (FloatArg w) = Inr w" by (simp add: py_float_def)
  show ?thesis
  proof (cases "overflow_threshold \<le> w powr 0.5")
    case True
    then have o: "float_pow w 0.5 = Inl OverflowError"
      using assms(1) by (simp add: float_pow_def)
    show ?thesis
      by (simp only: lr_decay_def pf conv o sum.case Let_def)
  next
    case False
    then have a: "float_pow w 0.5 = Inr (FloatV (Finite (w powr 0.5)))"
      using assms(1) by (intro float_pow_pos) simp_all
    show ?thesis
    proof (cases "overflow_threshold \<le> w powr (- 1.5)")
      case True
      then have o: "float_pow w (- 1.5) = Inl OverflowError"
        using assms(1) by (simp add: float_pow_def)
      show ?thesis
        by (simp only: lr_decay_def pf conv a o sum.case Let_def)
    next
      case False
      then have b: "float_pow w (- 1.5) = Inr (FloatV (Finite (w powr (- 1.5))))"
        using assms(1) by (intro float_pow_pos) simp_all
      have pm: "py_min (pv_mult (FloatV (Finite ?s)) (FloatV (Finite (w powr (- 1.5)))))
            (FloatV (Finite (?s powr (- 0.5)))) =
          Inr (FloatV (Finite (min (?s * w powr (- 1.5)) (?s powr (- 0.5)))))"
        using s assms(1) inv_sqrt_le_one [OF s] by (intro py_min_step) simp_all
      have nm: "np_minimum (pv_mult (FloatV (Finite ?s)) (FloatV (Finite (w powr (- 1.5)))))
            (FloatV (Finite (?s powr (- 0.5)))) =
          FloatV (Finite (min (?s * w powr (- 1.5)) (?s powr (- 0.5))))"
        using s assms(1) inv_sqrt_le_one [OF s] by (intro np_minimum_step) simp_all
      show ?thesis
        by (simp only: lr_decay_def pf conv a b sum.case Let_def step c pm nm)
    qed
  qed
qed

text \<open>
  Claim C9, amended. For \<open>warmup_steps > 0\<close> and \<open>1 \<le> last_epoch \<le> 2 ^ 53\<close>,
  \<^verbatim>\<open>NoamLR.get_lr\<close> does for each base learning rate what
  \<^verbatim>\<open>lr_decay(base_lr, last_epoch - 1, warmup_steps)\<close> does: it raises the fault that
  call raises first, or returns the list of the rates those calls return. Where
  \<open>warmup_steps\<close> is finite and \<open>warmup_steps^-1.5\<close> does not overflow it returns one rate
  per base learning rate, each equal to the value of that call.
\<close>

theorem NoamLR_get_lr_refines_lr_decay:
  assumes "0 < warmup_steps self" and "1 \<le> last_epoch self" and "last_epoch self \<le> 2 ^ 53"
  shows "NoamLR_get_lr self =
           map_result (\<lambda>base_lr. lr_decay base_lr (last_epoch self - 1)
             (FloatArg (warmup_steps self))) (base_lrs self)
       \<and> (warmup_steps self < overflow_threshold
            \<and> warmup_steps self powr (- 1.5) < overflow_threshold \<longrightarrow>
          (\<exists>rates. NoamLR_get_lr self = Inr rates
             \<and> length rates = length (base_lrs self)
             \<and> list_all2 (\<lambda>base_lr rate.
                   lr_decay base_lr (last_epoch self - 1) (FloatArg (warmup_steps self)) = Inr rate)
                 (base_lrs self) rates))"
proof -
  let ?w = "warmup_steps self" and ?e = "last_epoch self"
  let ?f = "\<lambda>base_lr. lr_decay base_lr (?e - 1) (FloatArg ?w)"
  have m: "max ?e 1 = ?e" using assms(2) by simp
  have eq: "NoamLR_get_lr self = map_result ?f (base_lrs self)"
    unfolding NoamLR_get_lr_def Let_def m
    by (simp only: noam_element [OF assms])
  have ret: "\<exists>rates. NoamLR_get_lr self = Inr rates
      \<and> length rates = length (base_lrs self)
      \<and> list_all2 (\<lambda>base_lr rate. ?f base_lr = Inr rate) (base_lrs self) rates"
    if "?w < overflow_threshold" "?w powr (- 1.5) < overflow_threshold"
  proof -
    let ?v = "\<lambda>base_lr. FloatV (fl_mult (fl_mult (Finite base_lr) (Finite (?w powr 0.5)))
        (Finite (min (float_step (?e - 1) * ?w powr (- 1.5)) (float_step (?e - 1) powr (- 0.5)))))"
    have pf: "py_float (FloatArg ?w) = Inr ?w" by (simp add: py_float_def)
    have r: "0 \<le> ?e - 1" "?e - 1 < 2 ^ 1024 - 2 ^ 970"
      using assms(2,3) small_below_overflow [of "?e - 1"] by simp_all
    have v: "?f base_lr = Inr (?v base_lr)" for base_lr
      by (rule lr_decay_value [OF r pf assms(1) that])
    then have "?f = (\<lambda>base_lr. Inr (?v base_lr))" by (intro ext)
    then have "NoamLR_get_lr self = Inr (map ?v (base_lrs self))"
      unfolding eq by (simp only: map_result_total)
    moreover have "list_all2 (\<lambda>base_lr rate. ?f base_lr = Inr rate)
        (base_lrs self) (map ?v (base_lrs self))"
      using v by (simp add: list_all2_map2 list_all2_same)
    ultimately show ?thesis by simp
  qed
  show ?thesis
    using eq ret by blast
qed

theorem NoamLR_get_lr_refines_lr_decay_witness:
  "\<exists>rates. NoamLR_get_lr \<lparr>last_epoch = 9, base_lrs = [1, 2], warmup_steps = 4\<rparr> = Inr rates
     \<and> length rates = Suc (Suc 0)
     \<and> list_all2 (\<lambda>base_lr rate. lr_decay base_lr 8 (FloatArg 4) = Inr rate) [1, 2] rates"
proof -
  let ?self = "\<lparr>last_epoch = 9, base_lrs = [1, 2], warmup_steps = 4\<rparr>"
  have t: "warmup_steps ?self < overflow_threshold"
    using overflow_threshold_big by simp
  have p: "warmup_steps ?self powr (- 1.5) < overflow_threshold"
    using neg_power_le_one [of 4] overflow_threshold_gt_one by simp
  have a: "0 < warmup_steps ?self" "1 \<le> last_epoch ?self" "last_epoch ?self \<le> 2 ^ 53"
    by simp_all
  from NoamLR_get_lr_refines_lr_decay [OF a, THEN conjunct2, THEN mp, OF conjI [OF t p]]
  show ?thesis by simp
qed

lemma wide_warmup_facts:
  "0 < wide_warmup" "1 \<le> wide_warmup" "wide_warmup < overflow_threshold"
  "2 ^ 53 + 2 \<le> wide_warmup" "wide_warmup powr (- 1.5) < overflow_threshold"
proof -
  show a: "0 < wide_warmup" "1 \<le> wide_warmup" "2 ^ 53 + 2 \<le> wide_warmup"
    by (simp_all add: wide_warmup_def)
  have "wide_warmup < 2 ^ 1000"
    unfolding wide_warmup_def by (rule power_strict_increasing) simp_all
  then show "wide_warmup < overflow_threshold"
    using overflow_threshold_big by linarith
  show "wide_warmup powr (- 1.5) < overflow_threshold"
    using neg_power_le_one [OF a(2)] overflow_threshold_gt_one by linarith
qed

text \<open>A rate in the warm-up range, none of whose products overflows.\<close>

lemma warmup_rate:
  fixes s w :: real
  assumes "1 \<le> s" and "s \<le> w" and "w < overflow_threshold"
  shows "fl_mult (fl_mult (Finite 1) (Finite (w powr 0.5)))
           (Finite (min (s * w powr (- 1.5)) (s powr (- 0.5)))) = Finite (s / w)"
proof -
  have w: "0 < w" "0 < s" using assms by linarith+
  have a: "0 < w powr 0.5" "w powr 0.5 < overflow_threshold"
    using w(1) sqrt_in_range [OF w(1) assms(3)] by simp_all
  have v: "w powr 0.5 * min (s * w powr (- 1.5)) (s powr (- 0.5)) = s / w"
    using w(2) assms(2) by (rule lr_linear)
  have "s / w \<le> 1" "0 < s / w" using assms w by simp_all
  then have r: "0 < s / w" "s / w < overflow_threshold"
    using overflow_threshold_gt_one by linarith+
  have "fl_mult (Finite 1) (Finite (w powr 0.5)) = Finite (w powr 0.5)"
    using a by (simp add: fl_round_pos_cases)
  then have "fl_mult (fl_mult (Finite 1) (Finite (w powr 0.5)))
        (Finite (min (s * w powr (- 1.5)) (s powr (- 0.5)))) =
      fl_round (w powr 0.5 * min (s * w powr (- 1.5)) (s powr (- 0.5)))"
    by (simp only: fl_mult.simps)
  also have "\<dots> = fl_round (s / w)"
    by (simp only: v)
  also have "\<dots> = Finite (s / w)"
    using r by (simp add: fl_round_pos_cases)
  finally show ?thesis .
qed

text \<open>
  Claim C9, as stated, holds for every \<open>last_epoch \<ge> 1\<close>. Above \<open>2 ^ 53\<close> the two
  functions reach different float steps: at \<open>last_epoch = 2 ^ 53 + 2\<close> the scheduler
  converts \<open>2 ^ 53 + 2\<close>, a double, while \<^verbatim>\<open>lr_decay\<close> converts \<open>2 ^ 53 + 1\<close> to
  \<open>2 ^ 53\<close> and adds one to get \<open>2 ^ 53\<close> again. With \<open>warmup_steps = 2 ^ 60\<close> and
  \<open>base_lr = 1\<close> the rates are \<open>(2 ^ 53 + 2) / 2 ^ 60\<close> and \<open>2 ^ 53 / 2 ^ 60\<close>.
\<close>

theorem NoamLR_get_lr_rounding_counterexample:
  "NoamLR_get_lr \<lparr>last_epoch = 2 ^ 53 + 2, base_lrs = [1], warmup_steps = wide_warmup\<rparr> =
     Inr [FloatV (Finite ((2 ^ 53 + 2) / wide_warmup))]
   \<and> lr_decay 1 (2 ^ 53 + 2 - 1) (FloatArg wide_warmup) =
     Inr (FloatV (Finite (2 ^ 53 / wide_warmup)))"
proof -
  let ?w = wide_warmup
  have pf: "py_float (FloatArg ?w) = Inr ?w" by (simp add: py_float_def)
  have g: "(0::int) \<le> 2 ^ 53 + 2 - 1" "(2 ^ 53 + 2 - 1 :: int) < 2 ^ 1024 - 2 ^ 970"
    using small_below_overflow [of "2 ^ 53"] by simp_all
  have fs: "float_step (2 ^ 53 + 2 - 1) = 2 ^ 53"
    using float_step_stalls(2) round_to_double_tie_down
    by (simp add: float_step_def float_add_one_def)
  have "lr_decay 1 (2 ^ 53 + 2 - 1) (FloatArg ?w) =
      Inr (FloatV (fl_mult (fl_mult (Finite 1) (Finite (?w powr 0.5)))
        (Finite (min (2 ^ 53 * ?w powr (- 1.5)) ((2 ^ 53) powr (- 0.5))))))"
    using lr_decay_value [OF g pf wide_warmup_facts(1,3,5), of 1] unfolding fs .
  moreover have "fl_mult (fl_mult (Finite 1) (Finite (?w powr 0.5)))
        (Finite (min (2 ^ 53 * ?w powr (- 1.5)) ((2 ^ 53) powr (- 0.5)))) = Finite (2 ^ 53 / ?w)"
    using wide_warmup_facts by (intro warmup_rate) simp_all
  ultimately have d: "lr_decay 1 (2 ^ 53 + 2 - 1) (FloatArg ?w) =
      Inr (FloatV (Finite (2 ^ 53 / ?w)))" by simp
  let ?k = "2 ^ 53 + 2 :: int"
  have k: "int_to_float ?k = Inr ?k"
    using int_to_float_ok [of ?k] small_below_overflow [of "2 ^ 53"] round_to_double_even
    by simp
  have s: "1 \<le> real_of_int ?k" by simp
  have a: "float_pow ?w 0.5 = Inr (FloatV (Finite (?w powr 0.5)))"
    using wide_warmup_facts sqrt_in_range [of ?w] by (intro float_pow_pos) simp_all
  have b: "float_pow ?w (- 1.5) = Inr (FloatV (Finite (?w powr (- 1.5))))"
    using wide_warmup_facts by (intro float_pow_pos) simp_all
  have "real_of_int ?k powr (- 0.5) < overflow_threshold"
    using inv_sqrt_le_one(2) [OF s] overflow_threshold_gt_one by linarith
  then have c: "float_pow (real_of_int ?k) (- 0.5) =
      Inr (FloatV (Finite (real_of_int ?k powr (- 0.5))))"
    using s by (intro float_pow_pos) simp_all
  have pm: "py_min (pv_mult (FloatV (Finite (real_of_int ?k))) (FloatV (Finite (?w powr (- 1.5)))))
        (FloatV (Finite (real_of_int ?k powr (- 0.5)))) =
      Inr (FloatV (Finite (min (real_of_int ?k * ?w powr (- 1.5)) (real_of_int ?k powr (- 0.5)))))"
    using s wide_warmup_facts(1) inv_sqrt_le_one [OF s] by (intro py_min_step) simp_all
  have rate: "fl_mult (fl_mult (Finite 1) (Finite (?w powr 0.5)))
        (Finite (min (real_of_int ?k * ?w powr (- 1.5)) (real_of_int ?k powr (- 0.5)))) =
      Finite (real_of_int ?k / ?w)"
    using wide_warmup_facts s by (intro warmup_rate) simp_all
  have m: "max ?k 1 = ?k" by simp
  let ?self = "\<lparr>last_epoch = ?k, base_lrs = [1], warmup_steps = ?w\<rparr>"
  have sel: "last_epoch ?self = ?k" "base_lrs ?self = [1]" "warmup_steps ?self = ?w"
    by simp_all
  have n: "NoamLR_get_lr ?self = Inr [FloatV (Finite (real_of_int ?k / ?w))]"
    unfolding NoamLR_get_lr_def Let_def
    by (simp only: sel m map_result.simps a b k c pm [unfolded pv_mult.simps] sum.case
        pv_mult.simps rate)
  from n d show ?thesis by simp
qed

section \<open>Properties of StepwiseGradualLR\<close>

lemmas stepwise_defs =
  StepwiseGradualLR_get_lr_def np_where_false_def try_first_def np_sub_def np_max_axis0_def
  py_getitem_def

text \<open>
  Claim C3, evaluated on the code. With the pairs \<open>(0, 0.1), (100, 0.01), (200, 0.001)\<close>
  the scheduler returns \<open>0.1\<close> at step 50 and \<open>0.01\<close> at step 150, once per parameter
  group. At step 300 every threshold is below the step, \<^verbatim>\<open>first_false\<close> stays the empty
  index array, and \<^verbatim>\<open>np.max(first_false - 1, 0)\<close> raises \<^verbatim>\<open>ValueError\<close> before the line
  that would return the last rate is reached.
\<close>

theorem StepwiseGradualLR_get_lr_example:
  "StepwiseGradualLR_get_lr (example_stepwise 50 lrs) = Inr (replicate (length lrs) (1 / 10))
   \<and> StepwiseGradualLR_get_lr (example_stepwise 150 lrs) = Inr (replicate (length lrs) (1 / 100))
   \<and> StepwiseGradualLR_get_lr (example_stepwise 300 lrs) = Inl ValueError"
  by (simp add: stepwise_defs example_stepwise_def example_gradual_learning_rates_def)

text \<open>
  Claim C7, as stated, rules out an index-out-of-range fault. With the single pair
  \<open>(100, 0.1)\<close> at step 50 the scheduler reads \<^verbatim>\<open>step_thresholds[1]\<close> of a one-element
  list: an \<^verbatim>\<open>IndexError\<close>.
\<close>

theorem StepwiseGradualLR_get_lr_short_config_counterexample:
  "StepwiseGradualLR_get_lr
     \<lparr>last_epoch = 50, base_lrs = [1], gradual_learning_rates = [(100, 1 / 10)]\<rparr> = Inl IndexError"
  by (simp add: stepwise_defs)

text \<open>
  Claim C7, amended. The scheduler has no check of its configuration. With fewer than two
  pairs it never returns a rate: it fails with a fault of the list and array operations,
  and with a single pair whose threshold is not below the step that fault is the
  \<^verbatim>\<open>IndexError\<close> of reading \<^verbatim>\<open>step_thresholds[1]\<close>.
\<close>

theorem StepwiseGradualLR_get_lr_short_config:
  assumes "length (gradual_learning_rates self) < 2"
  shows "isl (StepwiseGradualLR_get_lr self)
       \<and> (gradual_learning_rates self \<noteq> []
            \<and> max (last_epoch self) 1 \<le> fst (hd (gradual_learning_rates self))
             \<longrightarrow> StepwiseGradualLR_get_lr self = Inl IndexError)"
proof -
  consider "gradual_learning_rates self = []"
    | t r where "gradual_learning_rates self = [(t, r)]"
    using assms by (cases "gradual_learning_rates self") (auto simp: length_Suc_conv)
  then show ?thesis
  proof cases
    case 1
    then show ?thesis by (simp add: stepwise_defs)
  next
    case 2
    show ?thesis
    proof (cases "t < max (last_epoch self) 1")
      case True
      then have "\<not> max (last_epoch self) 1 \<le> t" by linarith
      with 2 True show ?thesis by (simp add: stepwise_defs Let_def)
    next
      case False
      with 2 show ?thesis by (simp add: stepwise_defs Let_def)
    qed
  qed
qed

theorem StepwiseGradualLR_get_lr_short_config_witness:
  "StepwiseGradualLR_get_lr
     \<lparr>last_epoch = 3, base_lrs = [1, 2], gradual_learning_rates = [(10, 1 / 2)]\<rparr> = Inl IndexError"
  using StepwiseGradualLR_get_lr_short_config
    [of "\<lparr>last_epoch = 3, base_lrs = [1, 2], gradual_learning_rates = [(10, 1 / 2)]\<rparr>"]
  by simp

section \<open>Properties of set_weight_decay\<close>

lemma weight_decay_loop_filter:
  "weight_decay_loop skip_list model (decay, no_decay) =
     (decay @ map snd (filter (\<lambda>np. considered np \<and> \<not> no_decay_test skip_list (fst np) (snd np)) model),
      no_decay @ map snd (filter (\<lambda>np. considered np \<and> no_decay_test skip_list (fst np) (snd np)) model))"
  by (induction model arbitrary: decay no_decay) (auto simp: considered_def)

lemma set_weight_decay_groups:
  "set_weight_decay model wd skip_list =
     [\<lparr>params = map snd (filter (\<lambda>np. considered np \<and> no_decay_test skip_list (fst np) (snd np)) model),
       weight_decay = 0\<rparr>,
      \<lparr>params = map snd (filter (\<lambda>np. considered np \<and> \<not> no_decay_test skip_list (fst np) (snd np)) model),
       weight_decay = wd\<rparr>]"
  by (simp add: set_weight_decay_def weight_decay_loop_filter)

lemma distinct_snd_filter_disjoint:
  assumes "distinct (map snd xs)"
  shows "set (map snd (filter P xs)) \<inter> set (map snd (filter (\<lambda>x. Q x \<and> \<not> P x) xs)) = {}"
proof -
  have inj: "inj_on snd (set xs)"
    using assms by (simp add: distinct_map)
  show ?thesis
  proof (rule ccontr)
    assume "\<not> ?thesis"
    then obtain x y where x: "x \<in> set xs" "P x" and y: "y \<in> set xs" "\<not> P y" and "snd x = snd y"
      by auto
    with inj have "x = y" by (auto dest: inj_onD)
    with x y show False by simp
  qed
qed

text \<open>
  Claim C4. Torch lists every parameter object once. Then the result is the no-decay
  group with \<open>weight_decay = 0\<close> followed by the decay group with the given coefficient;
  of the parameters the loop considers (trainable, and not named
  \<open>capacitron_layer.beta\<close>) every one of rank 1 or with an excluded substring in its name
  is in the no-decay group and not in the decay group, every other one is in the decay
  group and not in the no-decay group; a parameter named \<open>capacitron_layer.beta\<close> or
  with gradients disabled is in neither group; and no parameter occurs twice in the two
  groups.
\<close>

theorem set_weight_decay_partition:
  assumes "distinct (map snd model)"
  shows "\<exists>no_decay decay.
      set_weight_decay model wd skip_list =
        [\<lparr>params = no_decay, weight_decay = 0\<rparr>, \<lparr>params = decay, weight_decay = wd\<rparr>]
      \<and> distinct (no_decay @ decay)
      \<and> (\<forall>(name, param) \<in> set model.
            if requires_grad param \<and> name \<noteq> ''capacitron_layer.beta'' then
              (if length (shape param) = 1 \<or> (\<exists>skip_name \<in> skip_list. str_in skip_name name)
               then param \<in> set no_decay \<and> param \<notin> set decay
               else param \<in> set decay \<and> param \<notin> set no_decay)
            else param \<notin> set no_decay \<and> param \<notin> set decay)"
proof -
  let ?T = "\<lambda>np. no_decay_test skip_list (fst np) (snd np)"
  let ?P = "\<lambda>np. considered np \<and> ?T np"
  let ?Q = "\<lambda>np. considered np \<and> \<not> ?T np"
  let ?nd = "map snd (filter ?P model)" and ?d = "map snd (filter ?Q model)"
  have groups: "set_weight_decay model wd skip_list =
      [\<lparr>params = ?nd, weight_decay = 0\<rparr>, \<lparr>params = ?d, weight_decay = wd\<rparr>]"
    by (rule set_weight_decay_groups)
  have inj: "inj_on snd (set model)"
    using assms by (simp add: distinct_map)
  have "?Q = (\<lambda>np. considered np \<and> \<not> ?P np)"
    by auto
  then have disj: "set ?nd \<inter> set ?d = {}"
    using distinct_snd_filter_disjoint [OF assms, of ?P considered] by simp
  have dist: "distinct (?nd @ ?d)"
    using assms disj by (simp add: distinct_map_filter)
  have place: "if length (shape param) = 1 \<or> (\<exists>skip_name \<in> skip_list. str_in skip_name name)
       then param \<in> set ?nd \<and> param \<notin> set ?d
       else param \<in> set ?d \<and> param \<notin> set ?nd"
    if "(name, param) \<in> set model" "requires_grad param \<and> name \<noteq> ''capacitron_layer.beta''"
    for name param
  proof (cases "no_decay_test skip_list name param")
    case True
    with that have "(name, param) \<in> set (filter ?P model)"
      by (simp add: considered_def)
    then have "param \<in> set ?nd" by force
    with disj True show ?thesis
      by (auto simp: no_decay_test_def)
  next
    case False
    with that have "(name, param) \<in> set (filter ?Q model)"
      by (simp add: considered_def)
    then have "param \<in> set ?d" by force
    with disj False show ?thesis
      by (auto simp: no_decay_test_def)
  qed
  have skipped: "param \<notin> set ?nd \<and> param \<notin> set ?d"
    if "(name, param) \<in> set model" "\<not> (requires_grad param \<and> name \<noteq> ''capacitron_layer.beta'')"
    for name param
  proof -
    have nc: "\<not> considered (name, param)"
      using that(2) by (auto simp: considered_def)
    have same: "np = (name, param)" if "np \<in> set model" "snd np = param" for np
    proof -
      have "snd np = snd (name, param)" using that(2) by simp
      then show ?thesis
        by (rule inj_onD [OF inj _ that(1) \<open>(name, param) \<in> set model\<close>])
    qed
    have "False" if "param \<in> set (map snd (filter R model))" "\<And>np. R np \<Longrightarrow> considered np" for R
    proof -
      from that(1) obtain np where np: "np \<in> set model" "R np" "snd np = param"
        by auto
      then have "np = (name, param)" using same by blast
      with np(2) that(2) nc show False by blast
    qed
    from this [of ?P] this [of ?Q] show ?thesis by blast
  qed
  have all: "\<forall>(name, param) \<in> set model.
      if requires_grad param \<and> name \<noteq> ''capacitron_layer.beta'' then
        (if length (shape param) = 1 \<or> (\<exists>skip_name \<in> skip_list. str_in skip_name name)
         then param \<in> set ?nd \<and> param \<notin> set ?d
         else param \<in> set ?d \<and> param \<notin> set ?nd)
      else param \<notin> set ?nd \<and> param \<notin> set ?d"
  proof (intro ballI, clarify)
    fix name param assume mem: "(name, param) \<in> set model"
    show "if requires_grad param \<and> name \<noteq> ''capacitron_layer.beta'' then
        (if length (shape param) = 1 \<or> (\<exists>skip_name \<in> skip_list. str_in skip_name name)
         then param \<in> set ?nd \<and> param \<notin> set ?d
         else param \<in> set ?d \<and> param \<notin> set ?nd)
      else param \<notin> set ?nd \<and> param \<notin> set ?d"
    proof (cases "requires_grad param \<and> name \<noteq> ''capacitron_layer.beta''")
      case True
      show ?thesis unfolding if_P [OF True] by (rule place [OF mem True])
    next
      case False
      show ?thesis unfolding if_not_P [OF False] by (rule skipped [OF mem False])
    qed
  qed
  show ?thesis
    using groups dist all by blast
qed

theorem set_weight_decay_partition_witness:
  "set_weight_decay example_model (1 / 100) default_skip_list =
     [\<lparr>params = [\<lparr>pid = 1, shape = [3], requires_grad = True\<rparr>,
                  \<lparr>pid = 2, shape = [4, 4], requires_grad = True\<rparr>],
       weight_decay = 0\<rparr>,
      \<lparr>params = [\<lparr>pid = 0, shape = [2, 3], requires_grad = True\<rparr>], weight_decay = 1 / 100\<rparr>]"
proof -
  have d: "distinct (map snd example_model)"
    by (simp add: example_model_def)
  have e: "weight_decay_loop default_skip_list example_model ([], []) =
      ([\<lparr>pid = 0, shape = [2, 3], requires_grad = True\<rparr>],
       [\<lparr>pid = 1, shape = [3], requires_grad = True\<rparr>,
        \<lparr>pid = 2, shape = [4, 4], requires_grad = True\<rparr>])"
    by (simp add: example_model_def default_skip_list_def no_decay_test_def)
  from set_weight_decay_partition [OF d, of "1 / 100" default_skip_list]
  show ?thesis
    by (simp add: set_weight_decay_def e)
qed

section \<open>Properties of adam_weight_decay\<close>

lemma tensor_add_self: "tensor_add d d a = map (\<lambda>x. x + a * x) d"
  by (induction d) (simp_all add: tensor_add_def)

lemma adam_params_loop_step:
  "tensor_add (data t) (data t) (- weight_decay grp * lr grp) = data (decayed grp t)"
  unfolding tensor_add_self decayed_def by (simp add: algebra_simps)

lemma decayed_update:
  "t\<lparr>data := data (decayed grp t)\<rparr> = decayed grp t"
  by (simp add: decayed_def)

text \<open>The inner loop on addresses that are all different.\<close>

lemma adam_params_loop_distinct:
  assumes "distinct ps"
  shows "\<exists>h'. adam_params_loop grp ps (h, cur) = (h', if ps = [] then cur else Some (lr grp))
           \<and> (\<forall>p \<in> set ps. h' p = decayed grp (h p))
           \<and> (\<forall>q. q \<notin> set ps \<longrightarrow> h' q = h q)"
  using assms
proof (induction ps arbitrary: h cur)
  case Nil
  then show ?case by simp
next
  case (Cons p ps)
  let ?h = "h(p := decayed grp (h p))"
  from Cons.prems have d: "distinct ps" and np: "p \<notin> set ps" by simp_all
  from Cons.IH [OF d, of ?h "Some (lr grp)"]
  obtain h' where h': "adam_params_loop grp ps (?h, Some (lr grp)) =
        (h', if ps = [] then Some (lr grp) else Some (lr grp))"
      "\<forall>p \<in> set ps. h' p = decayed grp (?h p)" "\<forall>q. q \<notin> set ps \<longrightarrow> h' q = ?h q"
    by blast
  have run: "adam_params_loop grp (p # ps) (h, cur) = (h', Some (lr grp))"
    using h'(1) by (simp only: adam_params_loop.simps Let_def adam_params_loop_step decayed_update if_cancel)
  have "h' p = decayed grp (h p)"
    using h'(3) np by simp
  moreover have "\<forall>r \<in> set ps. h' r = decayed grp (h r)"
    using h'(2) np by auto
  moreover have "\<forall>q. q \<notin> set (p # ps) \<longrightarrow> h' q = h q"
    using h'(3) by simp
  ultimately show ?case
    using run by simp
qed

text \<open>The outer loop, when no address occurs twice in the optimizer.\<close>

lemma adam_groups_loop_distinct:
  assumes "distinct (concat (map params gs))"
  shows "\<exists>h'. adam_groups_loop gs (h, cur) =
             (h', if nonempty_groups gs = [] then cur else Some (lr (last (nonempty_groups gs))))
           \<and> (\<forall>grp \<in> set gs. \<forall>p \<in> set (params grp). h' p = decayed grp (h p))
           \<and> (\<forall>q. q \<notin> set (concat (map params gs)) \<longrightarrow> h' q = h q)"
  using assms
proof (induction gs arbitrary: h cur)
  case Nil
  then show ?case by (simp add: nonempty_groups_def)
next
  case (Cons g gs)
  from Cons.prems have dg: "distinct (params g)" and dgs: "distinct (concat (map params gs))"
    and disj: "set (params g) \<inter> set (concat (map params gs)) = {}"
    by simp_all
  let ?cur = "if params g = [] then cur else Some (lr g)"
  from adam_params_loop_distinct [OF dg, of g h cur]
  obtain h1 where h1: "adam_params_loop g (params g) (h, cur) = (h1, ?cur)"
      "\<forall>p \<in> set (params g). h1 p = decayed g (h p)" "\<forall>q. q \<notin> set (params g) \<longrightarrow> h1 q = h q"
    by blast
  from Cons.IH [OF dgs, of h1 ?cur]
  obtain h' where h': "adam_groups_loop gs (h1, ?cur) =
        (h', if nonempty_groups gs = [] then ?cur else Some (lr (last (nonempty_groups gs))))"
      "\<forall>grp \<in> set gs. \<forall>p \<in> set (params grp). h' p = decayed grp (h1 p)"
      "\<forall>q. q \<notin> set (concat (map params gs)) \<longrightarrow> h' q = h1 q"
    by blast
  have run: "adam_groups_loop (g # gs) (h, cur) =
      (h', if nonempty_groups (g # gs) = [] then cur
           else Some (lr (last (nonempty_groups (g # gs)))))"
    using h1(1) h'(1) by (simp add: nonempty_groups_def)
  have first: "\<forall>p \<in> set (params g). h' p = decayed g (h p)"
  proof
    fix p assume p: "p \<in> set (params g)"
    then have "p \<notin> set (concat (map params gs))" using disj by blast
    then have "h' p = h1 p" using h'(3) by blast
    then show "h' p = decayed g (h p)" using h1(2) p by simp
  qed
  have rest: "\<forall>grp \<in> set gs. \<forall>p \<in> set (params grp). h' p = decayed grp (h p)"
  proof (intro ballI)
    fix grp p assume grp: "grp \<in> set gs" and p: "p \<in> set (params grp)"
    then have "p \<in> set (concat (map params gs))" by auto
    then have "p \<notin> set (params g)" using disj by blast
    then have "h1 p = h p" using h1(3) by blast
    then show "h' p = decayed grp (h p)" using h'(2) grp p by simp
  qed
  have other: "\<forall>q. q \<notin> set (concat (map params (g # gs))) \<longrightarrow> h' q = h q"
    using h'(3) h1(3) by simp
  show ?case
    using run first rest other by simp
qed

lemma nonempty_groups_empty:
  "nonempty_groups gs = [] \<longleftrightarrow> concat (map params gs) = []"
  by (induction gs) (simp_all add: nonempty_groups_def)

text \<open>
  Claim C10, as stated, speaks of every optimizer with at least one parameter. Torch
  refuses a parameter in two groups but only warns about one listed twice inside a group,
  and the loop then decays that tensor once per listing: with \<open>lr = weight_decay = 1/2\<close>
  the data \<open>[1, 2]\<close> of a tensor listed twice becomes \<open>[9/16, 9/8]\<close>, not
  \<open>[1, 2] * (1 - 1/4) = [3/4, 3/2]\<close>.
\<close>

theorem adam_weight_decay_duplicate_counterexample:
  "(case adam_weight_decay example_store duplicate_optimizer of
      Inl e \<Rightarrow> False
    | Inr (h', optimizer, current_lr) \<Rightarrow>
        data (h' 0) = [9 / 16, 9 / 8] \<and> current_lr = 1 / 2)
   \<and> data (decayed (hd duplicate_optimizer) (example_store 0)) = [3 / 4, 3 / 2]"
  by (simp add: adam_weight_decay_def duplicate_optimizer_def example_store_def decayed_def
      tensor_add_def)

text \<open>
  Claim C10, amended. For every optimizer in which no parameter is listed twice, within
  a group or across groups: if it has at least one parameter, \<^verbatim>\<open>adam_weight_decay\<close>
  returns the optimizer with the learning rate of the last group that has a parameter;
  in the store every parameter \<open>p\<close> of every group \<open>g\<close> has its data multiplied by
  \<open>1 - g.lr * g.weight_decay\<close> and its gradient unchanged, and no other tensor changes.
  If it has no parameter at all, reading \<^verbatim>\<open>current_lr\<close> at the \<^verbatim>\<open>return\<close> raises
  \<^verbatim>\<open>UnboundLocalError\<close>.
\<close>

theorem adam_weight_decay_scales_parameters:
  assumes "distinct (concat (map params optimizer))"
  shows "(concat (map params optimizer) \<noteq> [] \<longrightarrow>
           (\<exists>h'. adam_weight_decay h optimizer =
                    Inr (h', optimizer, lr (last (nonempty_groups optimizer)))
              \<and> (\<forall>grp \<in> set optimizer. \<forall>p \<in> set (params grp).
                    data (h' p) = map (\<lambda>x. x * (1 - lr grp * weight_decay grp)) (data (h p))
                    \<and> grad (h' p) = grad (h p))
              \<and> (\<forall>q. q \<notin> set (concat (map params optimizer)) \<longrightarrow> h' q = h q)))
       \<and> (concat (map params optimizer) = [] \<longrightarrow>
            adam_weight_decay h optimizer = Inl UnboundLocalError)"
proof -
  from adam_groups_loop_distinct [OF assms, of h None]
  obtain h' where h': "adam_groups_loop optimizer (h, None) =
        (h', if nonempty_groups optimizer = [] then None
             else Some (lr (last (nonempty_groups optimizer))))"
      "\<forall>grp \<in> set optimizer. \<forall>p \<in> set (params grp). h' p = decayed grp (h p)"
      "\<forall>q. q \<notin> set (concat (map params optimizer)) \<longrightarrow> h' q = h q"
    by blast
  have none: "adam_weight_decay h optimizer = Inl UnboundLocalError"
    if "concat (map params optimizer) = []"
    using that h'(1) nonempty_groups_empty [of optimizer] by (simp add: adam_weight_decay_def)
  have some: "adam_weight_decay h optimizer =
      Inr (h', optimizer, lr (last (nonempty_groups optimizer)))"
    if "concat (map params optimizer) \<noteq> []"
    using that h'(1) nonempty_groups_empty [of optimizer] by (simp add: adam_weight_decay_def)
  have upd: "\<forall>grp \<in> set optimizer. \<forall>p \<in> set (params grp).
      data (h' p) = map (\<lambda>x. x * (1 - lr grp * weight_decay grp)) (data (h p))
      \<and> grad (h' p) = grad (h p)"
    using h'(2) by (simp add: decayed_def)
  show ?thesis
    using none some upd h'(3) by blast
qed

text \<open>
  Three tensors in two groups and an empty last group: each tensor takes the factor of
  its own group, a fourth tensor is left alone, and the rate returned is the second
  group's.
\<close>

theorem adam_weight_decay_scales_parameters_witness:
  "(\<exists>h'. adam_weight_decay example_store example_optimizer = Inr (h', example_optimizer, 1)
       \<and> data (h' 0) = [19 / 20, 19 / 10] \<and> data (h' 1) = [19 / 20, 19 / 10]
       \<and> data (h' 2) = [3 / 4, 3 / 2] \<and> grad (h' 2) = Some [3, 4]
       \<and> h' 3 = example_store 3)
   \<and> adam_weight_decay example_store [\<lparr>params = [], weight_decay = 0, lr = 5\<rparr>] =
       Inl UnboundLocalError"
proof -
  have d: "distinct (concat (map params example_optimizer))"
    by (simp add: example_optimizer_def)
  have d0: "distinct (concat (map params [\<lparr>params = ([]::addr list), weight_decay = 0, lr = 5\<rparr>]))"
    by simp
  have l: "lr (last (nonempty_groups example_optimizer)) = 1"
    by (simp add: nonempty_groups_def example_optimizer_def)
  from adam_weight_decay_scales_parameters [OF d, of example_store]
  obtain h' where h': "adam_weight_decay example_store example_optimizer =
        Inr (h', example_optimizer, 1)"
      "\<forall>grp \<in> set example_optimizer. \<forall>p \<in> set (params grp).
         data (h' p) = map (\<lambda>x. x * (1 - lr grp * weight_decay grp)) (data (example_store p))
         \<and> grad (h' p) = grad (example_store p)"
      "\<forall>q. q \<notin> set (concat (map params example_optimizer)) \<longrightarrow> h' q = example_store q"
    unfolding l by (auto simp: example_optimizer_def)
  have "data (h' 0) = [19 / 20, 19 / 10]" "data (h' 1) = [19 / 20, 19 / 10]"
      "data (h' 2) = [3 / 4, 3 / 2]" "grad (h' 2) = Some [3, 4]"
    using h'(2) by (simp_all add: example_optimizer_def example_store_def)
  moreover have "h' 3 = example_store 3"
    using h'(3) by (simp add: example_optimizer_def)
  moreover have "adam_weight_decay example_store [\<lparr>params = [], weight_decay = 0, lr = 5\<rparr>] =
      Inl UnboundLocalError"
    using adam_weight_decay_scales_parameters [OF d0, of example_store] by simp
  ultimately show ?thesis
    using h'(1) by blast
qed

end
